theory Spec2Isabelle
  imports Complex_Main
begin

section \<open>Values of the host language\<close>

text \<open>
  The optional props of \<open>FloatProps\<close> are union types that the component inspects with
  \<open>typeof\<close> and \<open>===\<close>, so prop values are modelled as tagged JavaScript values.
  Numbers are reals (the code only compares them, passes them on and negates them;
  \<open>NaN\<close> and the infinities are left out). A function value is opaque and carries a
  name only. An object is the list of its own properties in insertion order.
\<close>

datatype jsval =
    Undefined
  | Null
  | JBool bool
  | JNum real
  | JStr string
  | JObj "(string \<times> jsval) list"
  | JFun string

fun typeof :: "jsval \<Rightarrow> string" where
  "typeof Undefined = ''undefined''"
| "typeof Null = ''object''"
| "typeof (JBool b) = ''boolean''"
| "typeof (JNum n) = ''number''"
| "typeof (JStr s) = ''string''"
| "typeof (JObj kvs) = ''object''"
| "typeof (JFun f) = ''function''"

text \<open>\<open>ToBoolean\<close>, the coercion behind \<open>&&\<close>, \<open>||\<close>, \<open>!\<close> and \<open>if\<close>.\<close>

fun truthy :: "jsval \<Rightarrow> bool" where
  "truthy Undefined = False"
| "truthy Null = False"
| "truthy (JBool b) = b"
| "truthy (JNum n) = (n \<noteq> 0)"
| "truthy (JStr s) = (s \<noteq> [])"
| "truthy (JObj kvs) = True"
| "truthy (JFun f) = True"

fun is_object :: "jsval \<Rightarrow> bool" where
  "is_object (JObj kvs) = True"
| "is_object v = False"

text \<open>
  Property assignment on an object, and the spread \<open>{...target, ...src}\<close>. Properties
  stay in insertion order (JavaScript lists integer-like keys first; the order of an
  options object plays no part below), and of two entries of \<open>src\<close> with the same key
  the later one wins.
\<close>

fun assign :: "(string \<times> 'v) list \<Rightarrow> string \<Rightarrow> 'v \<Rightarrow> (string \<times> 'v) list" where
  "assign [] k v = [(k, v)]"
| "assign ((k', v') # kvs) k v =
     (if k' = k then (k, v) # kvs else (k', v') # assign kvs k v)"

definition spread :: "(string \<times> jsval) list \<Rightarrow> jsval \<Rightarrow> (string \<times> jsval) list" where
  "spread target src =
     (case src of
        JObj kvs \<Rightarrow> fold (\<lambda>(k, v) t. assign t k v) kvs target
      | _ \<Rightarrow> target)"

section \<open>Element handles and middleware\<close>

type_synonym element = string

text \<open>
  \<open>refs\<close> as returned by \<open>useFloating\<close>: two mutable handles whose \<open>current\<close> is an
  element or \<open>null\<close>.
\<close>

record refs =
  reference :: "element option"
  floating :: "element option"

text \<open>
  The middleware factories \<open>offset\<close>, \<open>flip\<close>, \<open>shift\<close>, \<open>autoPlacement\<close>, \<open>arrow\<close>
  and \<open>hide\<close> belong to the positioning engine. A call is represented by a constructor
  that keeps the argument it was given; \<open>Custom\<close> stands for any other middleware
  object a caller may build.
\<close>

datatype middleware =
    Offset jsval
  | Flip "(string \<times> jsval) list"
  | Shift "(string \<times> jsval) list"
  | AutoPlacement jsval
  | ArrowMw "(string \<times> jsval) list"
  | Hide jsval
  | Custom string

text \<open>
  \<open>props.middleware\<close>: absent, a static list, or a function of the two element
  handles.
\<close>

datatype middleware_prop =
    NoMiddleware
  | MiddlewareList "middleware list"
  | MiddlewareFun "refs \<Rightarrow> middleware list"

section \<open>The props of the Float root\<close>

text \<open>
  The fields of \<open>FloatProps\<close> that the modelled code reads. The \<open>show\<close> prop is named
  \<open>show_prop\<close>; a callback prop is the name of the caller's function, or absent.
\<close>

record FloatProps =
  show_prop :: "bool option"
  offset :: jsval
  shift :: jsval
  flip :: jsval
  arrow :: jsval
  autoPlacement :: jsval
  hide :: jsval
  autoUpdate :: jsval
  enter :: "string option"
  enterFrom :: "string option"
  enterTo :: "string option"
  leave :: "string option"
  leaveFrom :: "string option"
  leaveTo :: "string option"
  middleware :: middleware_prop
  onShow :: "string option"
  onHide :: "string option"
  onUpdate :: "string option"

text \<open>
  The declared types of the optional middleware props:
  \<open>offset?: number | object | function\<close>,
  \<open>shift?, flip?: boolean | number | object\<close>,
  \<open>arrow?: boolean | number\<close>,
  \<open>autoPlacement?, hide?, autoUpdate?: boolean | object\<close>.
\<close>

definition number_or_object_or_function :: "jsval \<Rightarrow> bool" where
  "number_or_object_or_function v \<longleftrightarrow>
     v = Undefined \<or> typeof v = ''number'' \<or> is_object v \<or> typeof v = ''function''"

definition boolean_or_number_or_object :: "jsval \<Rightarrow> bool" where
  "boolean_or_number_or_object v \<longleftrightarrow>
     v = Undefined \<or> typeof v = ''boolean'' \<or> typeof v = ''number'' \<or> is_object v"

definition boolean_or_number :: "jsval \<Rightarrow> bool" where
  "boolean_or_number v \<longleftrightarrow> v = Undefined \<or> typeof v = ''boolean'' \<or> typeof v = ''number''"

definition boolean_or_object :: "jsval \<Rightarrow> bool" where
  "boolean_or_object v \<longleftrightarrow> v = Undefined \<or> typeof v = ''boolean'' \<or> is_object v"

definition well_typed :: "FloatProps \<Rightarrow> bool" where
  "well_typed props \<longleftrightarrow>
     number_or_object_or_function (offset props) \<and>
     boolean_or_number_or_object (shift props) \<and>
     boolean_or_number_or_object (flip props) \<and>
     boolean_or_number (arrow props) \<and>
     boolean_or_object (autoPlacement props) \<and>
     boolean_or_object (hide props) \<and>
     boolean_or_object (autoUpdate props)"

section \<open>Assembling the middleware pipeline\<close>

text \<open>\<open>Array.prototype.push\<close> with one argument, and with a spread argument list.\<close>

definition push :: "'a list \<Rightarrow> 'a \<Rightarrow> 'a list" where
  "push xs x = xs @ [x]"

definition push_all :: "'a list \<Rightarrow> 'a list \<Rightarrow> 'a list" where
  "push_all xs ys = xs @ ys"

text \<open>
  The argument of the spread at the end of the effect:
  \<open>typeof props.middleware === 'function' ? props.middleware({...}) : props.middleware || []\<close>.
\<close>

definition user_middleware :: "FloatProps \<Rightarrow> refs \<Rightarrow> middleware list" where
  "user_middleware props rs =
     (case middleware props of
        MiddlewareFun f \<Rightarrow> f rs
      | MiddlewareList ms \<Rightarrow> ms
      | NoMiddleware \<Rightarrow> [])"

text \<open>
  The body of the first effect of \<open>FloatRoot\<close>: the array \<open>_middleware\<close> starts empty,
  receives its entries by successive pushes and is handed to \<open>setMiddleware\<close>.
  \<open>aref\<close> is the handle \<open>arrowRef\<close> of the arrow element.
\<close>

definition build_middleware :: "FloatProps \<Rightarrow> refs \<Rightarrow> string \<Rightarrow> middleware list" where
  "build_middleware props rs aref =
    (let m0 = [];
         m1 = (if typeof (offset props) = ''number'' \<or>
                  typeof (offset props) = ''object'' \<or>
                  typeof (offset props) = ''function''
               then push m0 (Offset (offset props)) else m0);
         m2 = (if flip props = JBool True \<or>
                  typeof (flip props) = ''number'' \<or>
                  typeof (flip props) = ''object''
               then push m1 (Flip (spread
                      [(''padding'', if typeof (flip props) = ''number'' then flip props else Undefined)]
                      (if typeof (flip props) = ''object'' then flip props else JObj [])))
               else m1);
         m3 = (if shift props = JBool True \<or>
                  typeof (shift props) = ''number'' \<or>
                  typeof (shift props) = ''object''
               then push m2 (Shift (spread
                      [(''padding'', if typeof (shift props) = ''number'' then shift props else Undefined)]
                      (if typeof (shift props) = ''object'' then shift props else JObj [])))
               else m2);
         m4 = (if autoPlacement props = JBool True \<or> typeof (autoPlacement props) = ''object''
               then push m3 (AutoPlacement
                      (if typeof (autoPlacement props) = ''object'' then autoPlacement props
                       else Undefined))
               else m3);
         m5 = (if arrow props = JBool True \<or> typeof (arrow props) = ''number''
               then push m4 (ArrowMw
                      [(''element'', JStr aref),
                       (''padding'', if arrow props = JBool True then JNum 0 else arrow props)])
               else m4);
         m6 = push_all m5 (user_middleware props rs);
         m7 = (if hide props = JBool True \<or> typeof (hide props) = ''object''
               then push m6 (Hide (if typeof (hide props) = ''object'' then hide props else Undefined))
               else m6)
     in m7)"

text \<open>The entry each built-in option contributes when it is enabled.\<close>

definition padding_options :: "jsval \<Rightarrow> (string \<times> jsval) list" where
  "padding_options v =
     spread [(''padding'', if typeof v = ''number'' then v else Undefined)]
            (if typeof v = ''object'' then v else JObj [])"

definition arrow_options :: "string \<Rightarrow> jsval \<Rightarrow> (string \<times> jsval) list" where
  "arrow_options aref v =
     [(''element'', JStr aref), (''padding'', if v = JBool True then JNum 0 else v)]"

definition object_or_undefined :: "jsval \<Rightarrow> jsval" where
  "object_or_undefined v = (if typeof v = ''object'' then v else Undefined)"

text \<open>A pipeline segment: one entry when the condition holds, none otherwise.\<close>

definition segment :: "bool \<Rightarrow> 'a \<Rightarrow> 'a list" where
  "segment c x = (if c then [x] else [])"

section \<open>Errors\<close>

text \<open>
  \<open>TypeError\<close> is what calling \<open>undefined\<close> raises; \<open>Error\<close> carries the message of a
  \<open>new Error(...)\<close> thrown by the component.
\<close>

datatype error = TypeError | Error string

section \<open>The two registries and the visibility effect\<close>

type_synonym float_id = string

text \<open>
  \<open>events\<close>: each lifecycle callback is the caller's function, or the empty function
  \<open>() => {}\<close> when the prop is absent.
\<close>

datatype callback = UserCallback string | Noop

record event_handlers =
  on_show :: callback
  on_hide :: callback
  on_update :: callback

definition events :: "FloatProps \<Rightarrow> event_handlers" where
  "events props =
     \<lparr> on_show = (case onShow props of Some f \<Rightarrow> UserCallback f | None \<Rightarrow> Noop),
       on_hide = (case onHide props of Some f \<Rightarrow> UserCallback f | None \<Rightarrow> Noop),
       on_update = (case onUpdate props of Some f \<Rightarrow> UserCallback f | None \<Rightarrow> Noop) \<rparr>"

text \<open>
  \<open>Throttle f w\<close> is the function \<open>throttle(f, w)\<close> returns and \<open>AutoUpdate r f cb opts\<close>
  the disposer that the engine's \<open>autoUpdate(r, f, cb, opts)\<close> returns; both are external
  and kept symbolic.
\<close>

datatype callback_fn = UpdateFloating | Throttle callback_fn nat

datatype cleaner = AutoUpdate element element callback_fn jsval

text \<open>
  What the effect does to the outside, in the order in which it does it: writes to the
  two module-level maps, calls of a disposer, calls of \<open>events.show\<close>, \<open>events.hide\<close>
  and \<open>events.update\<close>, and calls of the engine's \<open>update\<close>.
\<close>

datatype event_name = ShowEvent | HideEvent | UpdateEvent

datatype action =
    ShowStateSet float_id bool
  | ShowStateDelete float_id
  | CleanerSet float_id cleaner
  | CleanerDelete float_id
  | Disposed cleaner
  | EventFired event_name callback
  | Updated

text \<open>
  The module-level maps \<open>autoUpdateCleanerMap\<close> and \<open>showStateMap\<close>, with the trace of
  actions performed so far.
\<close>

record registries =
  autoUpdateCleanerMap :: "float_id \<rightharpoonup> cleaner"
  showStateMap :: "float_id \<rightharpoonup> bool"
  trace :: "action list"

definition perform :: "action \<Rightarrow> registries \<Rightarrow> registries" where
  "perform a st = st\<lparr>trace := trace st @ [a]\<rparr>"

definition updateFloating :: "FloatProps \<Rightarrow> registries \<Rightarrow> registries" where
  "updateFloating props st =
     (let st1 = perform Updated st;
          st2 = perform (EventFired UpdateEvent (on_update (events props))) st1
      in st2)"

definition startAutoUpdate :: "FloatProps \<Rightarrow> refs \<Rightarrow> float_id \<Rightarrow> registries \<Rightarrow> registries" where
  "startAutoUpdate props rs fid st =
     (case (reference rs, floating rs) of
        (Some r, Some f) \<Rightarrow>
          if autoUpdate props \<noteq> JBool False \<and> autoUpdateCleanerMap st fid = None
          then let c = AutoUpdate r f (Throttle UpdateFloating 16)
                         (if typeof (autoUpdate props) = ''object'' then autoUpdate props
                          else Undefined)
               in perform (CleanerSet fid c)
                    (st\<lparr>autoUpdateCleanerMap := (autoUpdateCleanerMap st)(fid \<mapsto> c)\<rparr>)
          else st
      | _ \<Rightarrow> st)"

definition clearAutoUpdate :: "float_id \<Rightarrow> registries \<Rightarrow> error + registries" where
  "clearAutoUpdate fid st =
     (case autoUpdateCleanerMap st fid of
        None \<Rightarrow> Inl TypeError
      | Some disposeAutoUpdate \<Rightarrow>
          let st1 = perform (Disposed disposeAutoUpdate) st;
              st2 = perform (CleanerDelete fid)
                      (st1\<lparr>autoUpdateCleanerMap := (autoUpdateCleanerMap st1)(fid := None)\<rparr>)
          in Inr st2)"

text \<open>
  The body of the layout effect with dependency \<open>show\<close>. \<open>sh\<close> is the \<open>show\<close> state of
  the render the effect belongs to. The result is the new state of the maps together
  with the value the body returns, \<open>autoUpdateCleanerMap.get(id)\<close>.
\<close>

definition show_effect ::
  "FloatProps \<Rightarrow> float_id \<Rightarrow> refs \<Rightarrow> bool \<Rightarrow> registries \<Rightarrow> error + (registries \<times> cleaner option)" where
  "show_effect props fid rs sh st =
     (if reference rs \<noteq> None \<and> floating rs \<noteq> None \<and> sh = True \<and>
         showStateMap st fid \<noteq> Some True
      then
        let st1 = perform (ShowStateSet fid True)
                    (st\<lparr>showStateMap := (showStateMap st)(fid \<mapsto> True)\<rparr>);
            st2 = perform (EventFired ShowEvent (on_show (events props))) st1;
            st3 = startAutoUpdate props rs fid st2
        in Inr (st3, autoUpdateCleanerMap st3 fid)
      else if sh = False \<and> showStateMap st fid = Some True \<and>
              autoUpdateCleanerMap st fid \<noteq> None
      then
        let st1 = perform (ShowStateDelete fid)
                    (st\<lparr>showStateMap := (showStateMap st)(fid := None)\<rparr>)
        in (case clearAutoUpdate fid st1 of
              Inl e \<Rightarrow> Inl e
            | Inr st2 \<Rightarrow>
                let st3 = perform (EventFired HideEvent (on_hide (events props))) st2
                in Inr (st3, autoUpdateCleanerMap st3 fid))
      else Inr (st, autoUpdateCleanerMap st fid))"

text \<open>
  The hook runs the body at mount and again whenever \<open>show\<close> has changed; before a
  re-run it calls the function the previous run returned, if it returned one.
  \<open>run_effects\<close> takes the successive runs, each with the \<open>show\<close> state and the element
  handles it sees; \<open>lifecycle\<close> below decides from the commits which runs there are,
  and has the unmount.
\<close>

definition cleanup :: "cleaner option \<Rightarrow> registries \<Rightarrow> registries" where
  "cleanup pending st = (case pending of None \<Rightarrow> st | Some c \<Rightarrow> perform (Disposed c) st)"

fun run_effects ::
  "FloatProps \<Rightarrow> float_id \<Rightarrow> (bool \<times> refs) list \<Rightarrow> cleaner option \<Rightarrow> registries
     \<Rightarrow> error + registries" where
  "run_effects props fid [] pending st = Inr st"
| "run_effects props fid ((sh, rs) # runs) pending st =
     (case show_effect props fid rs sh (cleanup pending st) of
        Inl e \<Rightarrow> Inl e
      | Inr (st', returned) \<Rightarrow> run_effects props fid runs returned st')"

definition attached :: "refs \<Rightarrow> bool" where
  "attached rs \<longleftrightarrow> reference rs \<noteq> None \<and> floating rs \<noteq> None"

text \<open>
  The life of an instance as the hook sees it. \<open>Commit sh rs\<close> is a committed render
  with \<open>show\<close> state \<open>sh\<close> and handles \<open>rs\<close>: the dependency list is \<open>[show]\<close>, so the
  body runs at the first commit and at every commit whose \<open>show\<close> differs from that of
  the commit before (\<open>prev\<close>), and not otherwise. At \<open>Unmount\<close> the hook calls the
  function the last run returned; \<open>float.tsx\<close> deletes no map entry then, and later
  events do not reach the instance.
\<close>

datatype lifecycle_event = Commit bool refs | Unmount

fun lifecycle ::
  "FloatProps \<Rightarrow> float_id \<Rightarrow> lifecycle_event list \<Rightarrow> bool option \<Rightarrow> cleaner option \<Rightarrow> registries
     \<Rightarrow> error + registries" where
  "lifecycle props fid [] prev pending st = Inr st"
| "lifecycle props fid (Commit sh rs # es) prev pending st =
     (if prev = Some sh then lifecycle props fid es prev pending st
      else (case show_effect props fid rs sh (cleanup pending st) of
              Inl e \<Rightarrow> Inl e
            | Inr (st', returned) \<Rightarrow> lifecycle props fid es (Some sh) returned st'))"
| "lifecycle props fid (Unmount # es) prev pending st = Inr (cleanup pending st)"

text \<open>
  What holds of the instance after a list of events: whether its \<open>show\<close> state is true,
  whether both handles are attached, and whether both handles were attached at the
  commit at which the body last ran. An unmounted instance is neither shown nor
  attached.
\<close>

fun shown_after :: "bool \<Rightarrow> lifecycle_event list \<Rightarrow> bool" where
  "shown_after b [] = b"
| "shown_after b (Commit sh rs # es) = shown_after sh es"
| "shown_after b (Unmount # es) = False"

fun attached_after :: "bool \<Rightarrow> lifecycle_event list \<Rightarrow> bool" where
  "attached_after a [] = a"
| "attached_after a (Commit sh rs # es) = attached_after (attached rs) es"
| "attached_after a (Unmount # es) = False"

fun attached_at_last_run :: "bool option \<Rightarrow> bool \<Rightarrow> lifecycle_event list \<Rightarrow> bool" where
  "attached_at_last_run prev a [] = a"
| "attached_at_last_run prev a (Commit sh rs # es) =
     (if prev = Some sh then attached_at_last_run prev a es
      else attached_at_last_run (Some sh) (attached rs) es)"
| "attached_at_last_run prev a (Unmount # es) = False"

definition empty_registries :: registries where
  "empty_registries = \<lparr> autoUpdateCleanerMap = Map.empty, showStateMap = Map.empty, trace = [] \<rparr>"

definition new_actions :: "registries \<Rightarrow> registries \<Rightarrow> action list" where
  "new_actions st st' = drop (length (trace st)) (trace st')"

section \<open>The transition bridge\<close>

text \<open>
  The two state cells of \<open>FloatRoot\<close> set by \<open>setIsMounted\<close> and \<open>setShow\<close>. The cell
  \<open>show\<close> is named \<open>show_state\<close>; it starts as
  \<open>props.show !== undefined ? props.show : false\<close>.
\<close>

record float_state =
  isMounted :: bool
  show_state :: bool

definition initial_state :: "FloatProps \<Rightarrow> float_state" where
  "initial_state props =
     \<lparr> isMounted = False,
       show_state = (case show_prop props of Some b \<Rightarrow> b | None \<Rightarrow> False) \<rparr>"

definition setShow :: "bool \<Rightarrow> float_state \<Rightarrow> float_state" where
  "setShow b s = s\<lparr>show_state := b\<rparr>"

definition setIsMounted :: "bool \<Rightarrow> float_state \<Rightarrow> float_state" where
  "setIsMounted b s = s\<lparr>isMounted := b\<rparr>"

text \<open>
  The props handed to the external \<open>Transition\<close> component. That component offers four
  lifecycle callbacks; \<open>FloatRoot\<close> passes \<open>beforeEnter\<close> and \<open>afterLeave\<close> and leaves
  \<open>afterEnter\<close> and \<open>beforeLeave\<close> unset. \<open>originClassValue\<close> is computed elsewhere and
  is a parameter here.
\<close>

record transition_props =
  t_show :: "bool option"
  t_enter :: string
  t_enterFrom :: string
  t_enterTo :: string
  t_leave :: string
  t_leaveFrom :: string
  t_leaveTo :: string
  beforeEnter :: "(float_state \<Rightarrow> float_state) option"
  afterEnter :: "(float_state \<Rightarrow> float_state) option"
  beforeLeave :: "(float_state \<Rightarrow> float_state) option"
  afterLeave :: "(float_state \<Rightarrow> float_state) option"

text \<open>\<open>s || ''\<close> for an optional string.\<close>

definition or_empty :: "string option \<Rightarrow> string" where
  "or_empty s = (case s of Some t \<Rightarrow> t | None \<Rightarrow> [])"

definition transitionProps :: "FloatProps \<Rightarrow> string \<Rightarrow> float_state \<Rightarrow> transition_props" where
  "transitionProps props originClassValue s =
     \<lparr> t_show = (if isMounted s then show_prop props else Some False),
       t_enter = or_empty (enter props) @ '' '' @ originClassValue,
       t_enterFrom = or_empty (enterFrom props),
       t_enterTo = or_empty (enterTo props),
       t_leave = or_empty (leave props) @ '' '' @ originClassValue,
       t_leaveFrom = or_empty (leaveFrom props),
       t_leaveTo = or_empty (leaveTo props),
       beforeEnter = Some (setShow True),
       afterEnter = None,
       beforeLeave = None,
       afterLeave = Some (setShow False) \<rparr>"

text \<open>
  The moments at which \<open>Transition\<close> calls back: before the entering animation starts,
  after it has completed, before the leaving animation starts, after it has completed.
  \<open>fire\<close> runs the callback registered for a moment, if any.
\<close>

datatype moment = BeforeEnter | AfterEnter | BeforeLeave | AfterLeave

definition fire :: "transition_props \<Rightarrow> moment \<Rightarrow> float_state \<Rightarrow> float_state" where
  "fire tp m s =
     (case (case m of BeforeEnter \<Rightarrow> beforeEnter tp | AfterEnter \<Rightarrow> afterEnter tp
                    | BeforeLeave \<Rightarrow> beforeLeave tp | AfterLeave \<Rightarrow> afterLeave tp) of
        None \<Rightarrow> s
      | Some callback \<Rightarrow> callback s)"

section \<open>The Arrow sub-component\<close>

text \<open>
  \<open>ArrowState\<close>, the value of \<open>ArrowContext\<close>. The fields \<open>x\<close> and \<open>y\<close> are named
  \<open>arrow_x\<close> and \<open>arrow_y\<close>; \<open>undefined\<close> is \<open>None\<close>.
\<close>

record ArrowState =
  arrowRef :: string
  placement :: string
  arrow_x :: "real option"
  arrow_y :: "real option"

text \<open>\<open>ctx\<close> is what \<open>useContext(ArrowContext)\<close> yields, \<open>None\<close> for \<open>null\<close>.\<close>

definition useArrowContext :: "string \<Rightarrow> ArrowState option \<Rightarrow> error + ArrowState" where
  "useArrowContext component ctx =
     (case ctx of
        None \<Rightarrow> Inl (Error (''<'' @ component @ '' /> is missing a parent <Float /> component.''))
      | Some context \<Rightarrow> Inr context)"

text \<open>\<open>String.prototype.split\<close> with a one-character separator.\<close>

fun split :: "char \<Rightarrow> string \<Rightarrow> string list" where
  "split sep [] = [[]]"
| "split sep (c # cs) =
     (if c = sep then [] # split sep cs
      else (case split sep cs of
              [] \<Rightarrow> [[c]]
            | w # ws \<Rightarrow> (c # w) # ws))"

text \<open>
  The lookup \<open>{top: 'bottom', ...}[placement.split('-')[0]]\<close>; \<open>None\<close> is \<open>undefined\<close>.
  Only the four own properties of the table are looked up: a string such as
  \<open>constructor\<close>, which is no value of the type \<open>Placement\<close>, would find an inherited
  property in JavaScript.
\<close>

definition staticSide :: "string \<Rightarrow> string option" where
  "staticSide pl =
     (case split CHR ''-'' pl of
        [] \<Rightarrow> None
      | side # _ \<Rightarrow>
          map_of [(''top'', ''bottom''), (''right'', ''left''),
                  (''bottom'', ''top''), (''left'', ''right'')] side)"

text \<open>
  A CSS length written by the template \<open>`${n}px`\<close>, or the empty string. The style object
  is the list of its properties; a computed key that is \<open>undefined\<close> names the
  property \<open>undefined\<close>.
\<close>

datatype css = Px real | EmptyString

definition px_or_empty :: "real option \<Rightarrow> css" where
  "px_or_empty v = (case v of Some n \<Rightarrow> Px n | None \<Rightarrow> EmptyString)"

definition arrow_style :: "string \<Rightarrow> real option \<Rightarrow> real option \<Rightarrow> real option \<Rightarrow> (string \<times> css) list" where
  "arrow_style pl xc yc off =
     assign
       [(''left'', px_or_empty xc),
        (''top'', px_or_empty yc),
        (''right'', EmptyString),
        (''bottom'', EmptyString)]
       (case staticSide pl of Some k \<Rightarrow> k | None \<Rightarrow> ''undefined'')
       (Px ((case off of Some d \<Rightarrow> d | None \<Rightarrow> 4) * - 1))"

text \<open>
  The props of \<open>Arrow\<close> that decide what it renders: whether \<open>as\<close> is \<open>Fragment\<close>, the
  tag given by \<open>as\<close> otherwise, \<open>offset\<close> (named \<open>arrow_offset\<close>), and the child element
  if there is a valid one.
\<close>

record ArrowProps =
  as_fragment :: bool
  as_tag :: "string option"
  arrow_offset :: "real option"
  child :: "string option"

record arrow_node =
  node_type :: string
  node_ref :: string
  node_style :: "(string \<times> css) list"

definition Arrow :: "ArrowProps \<Rightarrow> ArrowState option \<Rightarrow> error + arrow_node" where
  "Arrow props ctx =
     (case useArrowContext ''Float.Arrow'' ctx of
        Inl err \<Rightarrow> Inl err
      | Inr context \<Rightarrow>
          let style = arrow_style (placement context) (arrow_x context) (arrow_y context)
                        (arrow_offset props)
          in if as_fragment props
             then (case child props of
                     None \<Rightarrow> Inl (Error ''When the prop `as` of <Float.Arrow /> is <Fragment />, there must be contains 1 child element.'')
                   | Some ArrowNode \<Rightarrow>
                       Inr \<lparr> node_type = ArrowNode, node_ref = arrowRef context, node_style = style \<rparr>)
             else Inr \<lparr> node_type = (case as_tag props of Some t \<Rightarrow> t | None \<Rightarrow> ''div''),
                        node_ref = arrowRef context, node_style = style \<rparr>)"

text \<open>The type \<open>Placement\<close>: one of four sides, alone or with an alignment.\<close>

datatype side = Top | Right | Bottom | Left

datatype alignment = Start | End

fun side_name :: "side \<Rightarrow> string" where
  "side_name Top = ''top''"
| "side_name Right = ''right''"
| "side_name Bottom = ''bottom''"
| "side_name Left = ''left''"

fun placement_name :: "side \<Rightarrow> alignment option \<Rightarrow> string" where
  "placement_name sd None = side_name sd"
| "placement_name sd (Some Start) = side_name sd @ ''-start''"
| "placement_name sd (Some End) = side_name sd @ ''-end''"

section \<open>Sample configurations\<close>

definition sample_props :: FloatProps where
  "sample_props =
     \<lparr> show_prop = Some True, offset = JNum 8, shift = Undefined, flip = JBool True,
       arrow = JBool False, autoPlacement = Undefined, hide = JBool False,
       autoUpdate = Undefined, enter = None, enterFrom = None, enterTo = None,
       leave = None, leaveFrom = None, leaveTo = None,
       middleware = MiddlewareList [Custom ''size''],
       onShow = Some ''onShow'', onHide = Some ''onHide'', onUpdate = None \<rparr>"

definition sample_refs :: refs where
  "sample_refs = \<lparr> reference = Some ''button'', floating = Some ''panel'' \<rparr>"

definition detached_refs :: refs where
  "detached_refs = \<lparr> reference = Some ''button'', floating = None \<rparr>"

definition sample_arrow_props :: ArrowProps where
  "sample_arrow_props = \<lparr> as_fragment = False, as_tag = None, arrow_offset = None, child = None \<rparr>"

definition sample_arrow_state :: "string \<Rightarrow> ArrowState" where
  "sample_arrow_state pl =
     \<lparr> arrowRef = ''arrow'', placement = pl, arrow_x = Some 12.5, arrow_y = None \<rparr>"

definition hidden_state :: float_state where
  "hidden_state = \<lparr> isMounted = True, show_state = False \<rparr>"

definition no_auto_props :: FloatProps where
  "no_auto_props = sample_props\<lparr>autoUpdate := JBool False\<rparr>"

definition sample_cleaner :: cleaner where
  "sample_cleaner = AutoUpdate ''button'' ''panel'' (Throttle UpdateFloating 16) Undefined"

definition shown_registries :: registries where
  "shown_registries =
     \<lparr> autoUpdateCleanerMap = [''float-1'' \<mapsto> sample_cleaner],
       showStateMap = [''float-1'' \<mapsto> True],
       trace = [] \<rparr>"

section \<open>Observations used in the statements\<close>

text \<open>
  The condition under which the specification says an optional feature is part of the
  pipeline: its value is truthy, numeric, or an object.
\<close>

definition enabled_by_spec :: "jsval \<Rightarrow> bool" where
  "enabled_by_spec v \<longleftrightarrow> truthy v \<or> typeof v = ''number'' \<or> is_object v"

text \<open>
  Whether a run of effects ended with an entry for the instance in the map of cleaners,
  whether it ended with the instance marked in the map of shown states, and the trace it
  ended with.
\<close>

definition subscribed :: "float_id \<Rightarrow> error + registries \<Rightarrow> bool" where
  "subscribed fid r = (case r of Inl e \<Rightarrow> False | Inr st \<Rightarrow> autoUpdateCleanerMap st fid \<noteq> None)"

definition final_trace :: "error + registries \<Rightarrow> action list" where
  "final_trace r = (case r of Inl e \<Rightarrow> [] | Inr st \<Rightarrow> trace st)"

definition marked_shown :: "float_id \<Rightarrow> error + registries \<Rightarrow> bool" where
  "marked_shown fid r = (case r of Inl e \<Rightarrow> False | Inr st \<Rightarrow> showStateMap st fid = Some True)"

section \<open>Pipeline order and presence\<close>

lemma typeof_cases:
  "typeof v = ''number'' \<longleftrightarrow> (\<exists>n. v = JNum n)"
  "typeof v = ''boolean'' \<longleftrightarrow> (\<exists>b. v = JBool b)"
  "typeof v = ''function'' \<longleftrightarrow> (\<exists>f. v = JFun f)"
  "typeof v = ''undefined'' \<longleftrightarrow> v = Undefined"
  "typeof v = ''object'' \<longleftrightarrow> v = Null \<or> is_object v"
  by (cases v; simp)+

lemma build_middleware_segments:
  "build_middleware props rs aref =
     segment (typeof (offset props) = ''number'' \<or> typeof (offset props) = ''object'' \<or>
              typeof (offset props) = ''function'') (Offset (offset props)) @
     segment (flip props = JBool True \<or> typeof (flip props) = ''number'' \<or>
              typeof (flip props) = ''object'') (Flip (padding_options (flip props))) @
     segment (shift props = JBool True \<or> typeof (shift props) = ''number'' \<or>
              typeof (shift props) = ''object'') (Shift (padding_options (shift props))) @
     segment (autoPlacement props = JBool True \<or> typeof (autoPlacement props) = ''object'')
             (AutoPlacement (object_or_undefined (autoPlacement props))) @
     segment (arrow props = JBool True \<or> typeof (arrow props) = ''number'')
             (ArrowMw (arrow_options aref (arrow props))) @
     user_middleware props rs @
     segment (hide props = JBool True \<or> typeof (hide props) = ''object'')
             (Hide (object_or_undefined (hide props)))"
  unfolding build_middleware_def Let_def push_def push_all_def segment_def
    padding_options_def arrow_options_def object_or_undefined_def
  by simp

lemma enabled_offset:
  "number_or_object_or_function v \<Longrightarrow>
     (typeof v = ''number'' \<or> typeof v = ''object'' \<or> typeof v = ''function'') = enabled_by_spec v"
  by (cases v) (simp_all add: number_or_object_or_function_def enabled_by_spec_def)

lemma enabled_padding:
  "boolean_or_number_or_object v \<Longrightarrow>
     (v = JBool True \<or> typeof v = ''number'' \<or> typeof v = ''object'') = enabled_by_spec v"
  by (cases v) (simp_all add: boolean_or_number_or_object_def enabled_by_spec_def)

lemma enabled_arrow:
  "boolean_or_number v \<Longrightarrow> (v = JBool True \<or> typeof v = ''number'') = enabled_by_spec v"
  by (cases v) (simp_all add: boolean_or_number_def enabled_by_spec_def)

lemma enabled_object:
  "boolean_or_object v \<Longrightarrow> (v = JBool True \<or> typeof v = ''object'') = enabled_by_spec v"
  by (cases v) (simp_all add: boolean_or_object_def enabled_by_spec_def)

text \<open>
  Claim C1. Whatever the optional props are, the pipeline is the concatenation, in this
  order, of the offset, flip, shift, autoPlacement and arrow entries, then the caller's
  middleware (the static list, or what the caller's function returns for the two element
  handles, or nothing), then the hide entry; each built-in entry is there exactly when
  the test the effect makes on its prop succeeds.
\<close>

theorem pipeline_order:
  "build_middleware props rs aref =
     segment (typeof (offset props) = ''number'' \<or> typeof (offset props) = ''object'' \<or>
              typeof (offset props) = ''function'') (Offset (offset props)) @
     segment (flip props = JBool True \<or> typeof (flip props) = ''number'' \<or>
              typeof (flip props) = ''object'') (Flip (padding_options (flip props))) @
     segment (shift props = JBool True \<or> typeof (shift props) = ''number'' \<or>
              typeof (shift props) = ''object'') (Shift (padding_options (shift props))) @
     segment (autoPlacement props = JBool True \<or> typeof (autoPlacement props) = ''object'')
             (AutoPlacement (object_or_undefined (autoPlacement props))) @
     segment (arrow props = JBool True \<or> typeof (arrow props) = ''number'')
             (ArrowMw (arrow_options aref (arrow props))) @
     (case middleware props of
        MiddlewareFun f \<Rightarrow> f rs
      | MiddlewareList ms \<Rightarrow> ms
      | NoMiddleware \<Rightarrow> []) @
     segment (hide props = JBool True \<or> typeof (hide props) = ''object'')
             (Hide (object_or_undefined (hide props)))"
  by (simp add: build_middleware_segments user_middleware_def)

text \<open>
  Claim C3. For props of the declared types, each of the six built-in entries is in the
  pipeline exactly when its prop is truthy, numeric or an object; \<open>false\<close> and
  \<open>undefined\<close> are none of these.
\<close>

theorem pipeline_presence:
  assumes "well_typed props"
  shows "build_middleware props rs aref =
           segment (enabled_by_spec (offset props)) (Offset (offset props)) @
           segment (enabled_by_spec (flip props)) (Flip (padding_options (flip props))) @
           segment (enabled_by_spec (shift props)) (Shift (padding_options (shift props))) @
           segment (enabled_by_spec (autoPlacement props))
                   (AutoPlacement (object_or_undefined (autoPlacement props))) @
           segment (enabled_by_spec (arrow props)) (ArrowMw (arrow_options aref (arrow props))) @
           user_middleware props rs @
           segment (enabled_by_spec (hide props)) (Hide (object_or_undefined (hide props)))
         \<and> \<not> enabled_by_spec (JBool False) \<and> \<not> enabled_by_spec Undefined"
proof -
  from assms have
    "number_or_object_or_function (offset props)"
    "boolean_or_number_or_object (flip props)"
    "boolean_or_number_or_object (shift props)"
    "boolean_or_object (autoPlacement props)"
    "boolean_or_number (arrow props)"
    "boolean_or_object (hide props)"
    by (simp_all add: well_typed_def)
  then show ?thesis
    by (simp add: build_middleware_segments enabled_offset enabled_padding enabled_arrow
          enabled_object)
       (simp add: enabled_by_spec_def)
qed

lemma sample_well_typed: "well_typed sample_props"
  by (simp add: well_typed_def sample_props_def number_or_object_or_function_def
      boolean_or_number_or_object_def boolean_or_number_def boolean_or_object_def)

theorem pipeline_presence_witness:
  "well_typed sample_props \<and>
   build_middleware sample_props sample_refs ''arrow'' =
     [Offset (JNum 8), Flip [(''padding'', Undefined)], Custom ''size'']"
  using pipeline_presence [OF sample_well_typed, of sample_refs "''arrow''"] sample_well_typed
  by (simp add: segment_def enabled_by_spec_def sample_props_def padding_options_def
      spread_def user_middleware_def)

section \<open>The Arrow sub-component\<close>

text \<open>
  Claim C9. Without an enclosing Float the context is \<open>null\<close> and the lookup throws an
  error whose message names the component and the missing \<open>Float\<close> parent, so \<open>Arrow\<close>
  fails with that error; with an enclosing Float the lookup returns its Arrow State.
\<close>

theorem missing_parent:
  "useArrowContext component None =
     Inl (Error (''<'' @ component @ '' /> is missing a parent <Float /> component.'')) \<and>
   useArrowContext component (Some context) = Inr context \<and>
   Arrow props None = Inl (Error ''<Float.Arrow /> is missing a parent <Float /> component.'')"
  by (simp add: useArrowContext_def Arrow_def)

lemma split_placement_name:
  "split CHR ''-'' (placement_name sd al) =
     side_name sd # (case al of None \<Rightarrow> [] | Some Start \<Rightarrow> [''start''] | Some End \<Rightarrow> [''end''])"
  by (induction sd al rule: placement_name.induct; case_tac sd; simp)

lemma staticSide_placement:
  "staticSide (placement_name Top al) = Some ''bottom''"
  "staticSide (placement_name Right al) = Some ''left''"
  "staticSide (placement_name Bottom al) = Some ''top''"
  "staticSide (placement_name Left al) = Some ''right''"
  by (simp_all add: staticSide_def split_placement_name)

lemma arrow_style_values:
  "map_of (arrow_style (placement_name Top al) xc yc off) ''bottom'' =
     Some (Px (- (case off of Some d \<Rightarrow> d | None \<Rightarrow> 4)))"
  "map_of (arrow_style (placement_name Top al) xc yc off) ''left'' = Some (px_or_empty xc)"
  "map_of (arrow_style (placement_name Right al) xc yc off) ''left'' =
     Some (Px (- (case off of Some d \<Rightarrow> d | None \<Rightarrow> 4)))"
  "map_of (arrow_style (placement_name Right al) xc yc off) ''top'' = Some (px_or_empty yc)"
  "map_of (arrow_style (placement_name Bottom al) xc yc off) ''top'' =
     Some (Px (- (case off of Some d \<Rightarrow> d | None \<Rightarrow> 4)))"
  "map_of (arrow_style (placement_name Bottom al) xc yc off) ''left'' = Some (px_or_empty xc)"
  "map_of (arrow_style (placement_name Left al) xc yc off) ''right'' =
     Some (Px (- (case off of Some d \<Rightarrow> d | None \<Rightarrow> 4)))"
  "map_of (arrow_style (placement_name Left al) xc yc off) ''top'' = Some (px_or_empty yc)"
  by (simp_all add: arrow_style_def staticSide_placement px_or_empty_def)

lemma Arrow_node:
  "Arrow props (Some ctx) = Inr node \<Longrightarrow>
     node_ref node = arrowRef ctx \<and>
     node_style node =
       arrow_style (placement ctx) (arrow_x ctx) (arrow_y ctx) (arrow_offset props)"
  by (auto simp add: Arrow_def useArrowContext_def Let_def split: if_splits option.splits)

lemma Arrow_returns:
  "\<not> (as_fragment props \<and> child props = None) \<Longrightarrow> \<exists>node. Arrow props (Some ctx) = Inr node"
  by (auto simp add: Arrow_def useArrowContext_def Let_def split: option.splits)

text \<open>
  Claim C8. \<open>Arrow\<close> inside a Float renders unless \<open>as\<close> is \<open>Fragment\<close> and there is no
  valid child. What it renders carries the context's handle and a style computed from
  the context's placement and coordinates and from the \<open>offset\<close> prop: for every
  placement the style has the negated stand-off distance (4 when \<open>offset\<close> is absent) on
  the side opposite the placement's side, and on the cross axis (\<open>left\<close> for top and
  bottom placements, \<open>top\<close> for left and right placements) the coordinate of the last
  positioning pass when it is a number and the empty string otherwise.
\<close>

theorem arrow_style_sides:
  "(\<not> (as_fragment props \<and> child props = None) \<longrightarrow>
      (\<exists>rendered. Arrow props (Some ctx) = Inr rendered)) \<and>
   (Arrow props (Some ctx) = Inr node \<longrightarrow>
      node_ref node = arrowRef ctx \<and>
      (placement ctx = placement_name Top al \<longrightarrow>
         map_of (node_style node) ''bottom'' =
           Some (Px (- (case arrow_offset props of Some d \<Rightarrow> d | None \<Rightarrow> 4))) \<and>
         map_of (node_style node) ''left'' = Some (px_or_empty (arrow_x ctx))) \<and>
      (placement ctx = placement_name Right al \<longrightarrow>
         map_of (node_style node) ''left'' =
           Some (Px (- (case arrow_offset props of Some d \<Rightarrow> d | None \<Rightarrow> 4))) \<and>
         map_of (node_style node) ''top'' = Some (px_or_empty (arrow_y ctx))) \<and>
      (placement ctx = placement_name Bottom al \<longrightarrow>
         map_of (node_style node) ''top'' =
           Some (Px (- (case arrow_offset props of Some d \<Rightarrow> d | None \<Rightarrow> 4))) \<and>
         map_of (node_style node) ''left'' = Some (px_or_empty (arrow_x ctx))) \<and>
      (placement ctx = placement_name Left al \<longrightarrow>
         map_of (node_style node) ''right'' =
           Some (Px (- (case arrow_offset props of Some d \<Rightarrow> d | None \<Rightarrow> 4))) \<and>
         map_of (node_style node) ''top'' = Some (px_or_empty (arrow_y ctx)))) \<and>
   px_or_empty (Some n) = Px n \<and> px_or_empty None = EmptyString"
proof (intro conjI impI)
  assume "\<not> (as_fragment props \<and> child props = None)"
  then show "\<exists>rendered. Arrow props (Some ctx) = Inr rendered" by (rule Arrow_returns)
next
  assume "Arrow props (Some ctx) = Inr node"
  then show "node_ref node = arrowRef ctx" by (simp add: Arrow_node)
next
  assume "Arrow props (Some ctx) = Inr node" "placement ctx = placement_name Top al"
  then show "map_of (node_style node) ''bottom'' =
           Some (Px (- (case arrow_offset props of Some d \<Rightarrow> d | None \<Rightarrow> 4)))"
    and "map_of (node_style node) ''left'' = Some (px_or_empty (arrow_x ctx))"
    by (simp_all add: Arrow_node arrow_style_values)
next
  assume "Arrow props (Some ctx) = Inr node" "placement ctx = placement_name Right al"
  then show "map_of (node_style node) ''left'' =
           Some (Px (- (case arrow_offset props of Some d \<Rightarrow> d | None \<Rightarrow> 4)))"
    and "map_of (node_style node) ''top'' = Some (px_or_empty (arrow_y ctx))"
    by (simp_all add: Arrow_node arrow_style_values)
next
  assume "Arrow props (Some ctx) = Inr node" "placement ctx = placement_name Bottom al"
  then show "map_of (node_style node) ''top'' =
           Some (Px (- (case arrow_offset props of Some d \<Rightarrow> d | None \<Rightarrow> 4)))"
    and "map_of (node_style node) ''left'' = Some (px_or_empty (arrow_x ctx))"
    by (simp_all add: Arrow_node arrow_style_values)
next
  assume "Arrow props (Some ctx) = Inr node" "placement ctx = placement_name Left al"
  then show "map_of (node_style node) ''right'' =
           Some (Px (- (case arrow_offset props of Some d \<Rightarrow> d | None \<Rightarrow> 4)))"
    and "map_of (node_style node) ''top'' = Some (px_or_empty (arrow_y ctx))"
    by (simp_all add: Arrow_node arrow_style_values)
qed (simp_all add: px_or_empty_def)

theorem arrow_style_sides_witness:
  "placement (sample_arrow_state ''top'') = placement_name Top None \<and>
   placement (sample_arrow_state ''right-start'') = placement_name Right (Some Start) \<and>
   placement (sample_arrow_state ''bottom-end'') = placement_name Bottom (Some End) \<and>
   placement (sample_arrow_state ''left'') = placement_name Left None \<and>
   \<not> (as_fragment sample_arrow_props \<and> child sample_arrow_props = None) \<and>
   (case Arrow sample_arrow_props (Some (sample_arrow_state ''top'')) of
      Inl e \<Rightarrow> False
    | Inr node \<Rightarrow> map_of (node_style node) ''bottom'' = Some (Px (- 4)) \<and>
                  map_of (node_style node) ''left'' = Some (Px 12.5)) \<and>
   (case Arrow sample_arrow_props (Some (sample_arrow_state ''right-start'')) of
      Inl e \<Rightarrow> False
    | Inr node \<Rightarrow> map_of (node_style node) ''left'' = Some (Px (- 4)) \<and>
                  map_of (node_style node) ''top'' = Some EmptyString) \<and>
   (case Arrow sample_arrow_props (Some (sample_arrow_state ''bottom-end'')) of
      Inl e \<Rightarrow> False
    | Inr node \<Rightarrow> map_of (node_style node) ''top'' = Some (Px (- 4)) \<and>
                  map_of (node_style node) ''left'' = Some (Px 12.5)) \<and>
   (case Arrow sample_arrow_props (Some (sample_arrow_state ''left'')) of
      Inl e \<Rightarrow> False
    | Inr node \<Rightarrow> map_of (node_style node) ''right'' = Some (Px (- 4)) \<and>
                  map_of (node_style node) ''top'' = Some EmptyString)"
proof -
  have pl: "placement (sample_arrow_state ''top'') = placement_name Top None"
    "placement (sample_arrow_state ''right-start'') = placement_name Right (Some Start)"
    "placement (sample_arrow_state ''bottom-end'') = placement_name Bottom (Some End)"
    "placement (sample_arrow_state ''left'') = placement_name Left None"
    by (simp_all add: sample_arrow_state_def)
  have v: "\<not> (as_fragment sample_arrow_props \<and> child sample_arrow_props = None)"
    "arrow_offset sample_arrow_props = None"
    "\<And>pl. arrow_x (sample_arrow_state pl) = Some 12.5"
    "\<And>pl. arrow_y (sample_arrow_state pl) = None"
    by (simp_all add: sample_arrow_props_def sample_arrow_state_def)
  have r: "\<And>pl. \<exists>node. Arrow sample_arrow_props (Some (sample_arrow_state pl)) = Inr node"
    using arrow_style_sides [where props = sample_arrow_props] v(1) by blast
  obtain n1 where n1: "Arrow sample_arrow_props (Some (sample_arrow_state ''top'')) = Inr n1"
    using r by blast
  obtain n2 where n2: "Arrow sample_arrow_props (Some (sample_arrow_state ''right-start'')) = Inr n2"
    using r by blast
  obtain n3 where n3: "Arrow sample_arrow_props (Some (sample_arrow_state ''bottom-end'')) = Inr n3"
    using r by blast
  obtain n4 where n4: "Arrow sample_arrow_props (Some (sample_arrow_state ''left'')) = Inr n4"
    using r by blast
  from
    arrow_style_sides [where props = sample_arrow_props and ctx = "sample_arrow_state ''top''"
      and node = n1 and al = None]
    arrow_style_sides [where props = sample_arrow_props
      and ctx = "sample_arrow_state ''right-start''" and node = n2 and al = "Some Start"]
    arrow_style_sides [where props = sample_arrow_props
      and ctx = "sample_arrow_state ''bottom-end''" and node = n3 and al = "Some End"]
    arrow_style_sides [where props = sample_arrow_props and ctx = "sample_arrow_state ''left''"
      and node = n4 and al = None]
    n1 n2 n3 n4 pl v
  show ?thesis by (simp add: px_or_empty_def)
qed

section \<open>The transition bridge\<close>

text \<open>
  Claim C6, as stated, has \<open>show\<close> become true when the entering animation completes.
  Starting hidden, \<open>show\<close> is already true once the callback that precedes the entering
  animation has run, and the moment of completion has no callback.
\<close>

theorem shown_before_enter_completes:
  "show_state hidden_state = False \<and>
   show_state (fire (transitionProps sample_props [] hidden_state) BeforeEnter hidden_state) = True \<and>
   fire (transitionProps sample_props [] hidden_state) AfterEnter hidden_state = hidden_state"
  by (simp add: hidden_state_def fire_def transitionProps_def setShow_def)

text \<open>
  Claim C6, amended. \<open>show\<close> is set to true immediately before the entering animation
  starts and to false when the leaving animation has completed; the other two moments
  leave it alone. A change of the \<open>show\<close> prop only reaches the \<open>show\<close> prop of the
  transition, and the initial value of \<open>show\<close> is the \<open>show\<close> prop at mount, false when
  absent.
\<close>

theorem show_state_commits:
  "fire (transitionProps props oc s) BeforeEnter s' = setShow True s' \<and>
   fire (transitionProps props oc s) AfterEnter s' = s' \<and>
   fire (transitionProps props oc s) BeforeLeave s' = s' \<and>
   fire (transitionProps props oc s) AfterLeave s' = setShow False s' \<and>
   show_state (setShow b s') = b \<and>
   t_show (transitionProps props oc s) = (if isMounted s then show_prop props else Some False) \<and>
   show_state (initial_state props) = (show_prop props = Some True)"
  by (cases "show_prop props") (simp_all add: fire_def transitionProps_def setShow_def initial_state_def)

section \<open>The visibility effect\<close>

lemma perform_fields [simp]:
  "autoUpdateCleanerMap (perform a st) = autoUpdateCleanerMap st"
  "showStateMap (perform a st) = showStateMap st"
  "trace (perform a st) = trace st @ [a]"
  by (simp_all add: perform_def)

lemma new_actions_append [simp]:
  "trace st' = trace st @ acts \<Longrightarrow> new_actions st st' = acts"
  by (simp add: new_actions_def)

lemma new_actions_same [simp]: "new_actions st st = []"
  by (simp add: new_actions_def)

lemma effect_show:
  assumes "reference rs = Some r" "floating rs = Some f" "showStateMap st fid \<noteq> Some True"
  shows "\<exists>st'. show_effect props fid rs True st = Inr (st', autoUpdateCleanerMap st' fid) \<and>
           showStateMap st' = (showStateMap st)(fid \<mapsto> True) \<and>
           (if autoUpdate props \<noteq> JBool False \<and> autoUpdateCleanerMap st fid = None
            then autoUpdateCleanerMap st' =
                   (autoUpdateCleanerMap st)(fid \<mapsto> AutoUpdate r f (Throttle UpdateFloating 16)
                      (object_or_undefined (autoUpdate props))) \<and>
                 trace st' = trace st @
                   [ShowStateSet fid True, EventFired ShowEvent (on_show (events props)),
                    CleanerSet fid (AutoUpdate r f (Throttle UpdateFloating 16)
                      (object_or_undefined (autoUpdate props)))]
            else autoUpdateCleanerMap st' = autoUpdateCleanerMap st \<and>
                 trace st' = trace st @
                   [ShowStateSet fid True, EventFired ShowEvent (on_show (events props))])"
  using assms
  by (simp add: show_effect_def startAutoUpdate_def Let_def object_or_undefined_def)

lemma effect_hide:
  assumes "showStateMap st fid = Some True" "autoUpdateCleanerMap st fid = Some c"
  shows "\<exists>st'. show_effect props fid rs False st = Inr (st', None) \<and>
           showStateMap st' = (showStateMap st)(fid := None) \<and>
           autoUpdateCleanerMap st' = (autoUpdateCleanerMap st)(fid := None) \<and>
           trace st' = trace st @
             [ShowStateDelete fid, Disposed c, CleanerDelete fid,
              EventFired HideEvent (on_hide (events props))]"
  using assms
  by (simp add: show_effect_def clearAutoUpdate_def Let_def)

lemma effect_idle:
  assumes "\<not> (attached rs \<and> sh \<and> showStateMap st fid \<noteq> Some True)"
    and "\<not> (\<not> sh \<and> showStateMap st fid = Some True \<and> autoUpdateCleanerMap st fid \<noteq> None)"
  shows "show_effect props fid rs sh st = Inr (st, autoUpdateCleanerMap st fid)"
  using assms
  by (auto simp add: show_effect_def attached_def)

lemma effect_cases:
  obtains (showing) r f where "reference rs = Some r" "floating rs = Some f" "sh"
      "showStateMap st fid \<noteq> Some True"
    | (hiding) c where "\<not> sh" "showStateMap st fid = Some True" "autoUpdateCleanerMap st fid = Some c"
    | (idle) "\<not> (attached rs \<and> sh \<and> showStateMap st fid \<noteq> Some True)"
        "\<not> (\<not> sh \<and> showStateMap st fid = Some True \<and> autoUpdateCleanerMap st fid \<noteq> None)"
proof (cases "attached rs \<and> sh \<and> showStateMap st fid \<noteq> Some True")
  case True
  then obtain r f where "reference rs = Some r" "floating rs = Some f"
    by (auto simp add: attached_def)
  with True showing show ?thesis by blast
next
  case False
  show ?thesis
  proof (cases "\<not> sh \<and> showStateMap st fid = Some True \<and> autoUpdateCleanerMap st fid \<noteq> None")
    case True
    then obtain c where "autoUpdateCleanerMap st fid = Some c" by auto
    with True hiding show ?thesis by blast
  next
    case no_hide: False
    from idle [OF False no_hide] show ?thesis .
  qed
qed

text \<open>
  Claim C4. The effect always returns. It marks the instance shown, calls \<open>events.show\<close>
  or registers a subscription only when both handles are attached, \<open>show\<close> is true and
  the instance is not marked shown. In that case it marks the instance, then calls
  \<open>events.show\<close>, then registers a subscription, the last only if none is registered
  (and \<open>autoUpdate\<close> is not \<open>false\<close>); an existing subscription is left as it is. With
  \<open>show\<close> true and a handle missing or the instance already marked, nothing changes.
\<close>

theorem show_transition:
  "\<exists>st' ret. show_effect props fid rs sh st = Inr (st', ret) \<and>
     (ShowStateSet fid b \<in> set (new_actions st st') \<or>
      EventFired ShowEvent cb \<in> set (new_actions st st') \<or>
      CleanerSet fid c \<in> set (new_actions st st') \<or>
      (showStateMap st' fid = Some True \<and> showStateMap st fid \<noteq> Some True) \<or>
      (autoUpdateCleanerMap st' fid \<noteq> None \<and> autoUpdateCleanerMap st fid = None) \<longrightarrow>
        attached rs \<and> sh \<and> showStateMap st fid \<noteq> Some True) \<and>
     (reference rs = Some r \<and> floating rs = Some f \<and> sh \<and> showStateMap st fid \<noteq> Some True \<longrightarrow>
        showStateMap st' = (showStateMap st)(fid \<mapsto> True) \<and>
        new_actions st st' =
          [ShowStateSet fid True, EventFired ShowEvent (on_show (events props))] @
          (if autoUpdate props \<noteq> JBool False \<and> autoUpdateCleanerMap st fid = None
           then [CleanerSet fid (AutoUpdate r f (Throttle UpdateFloating 16)
                   (object_or_undefined (autoUpdate props)))]
           else []) \<and>
        autoUpdateCleanerMap st' =
          (if autoUpdate props \<noteq> JBool False \<and> autoUpdateCleanerMap st fid = None
           then (autoUpdateCleanerMap st)(fid \<mapsto> AutoUpdate r f (Throttle UpdateFloating 16)
                   (object_or_undefined (autoUpdate props)))
           else autoUpdateCleanerMap st) \<and>
        ret = autoUpdateCleanerMap st' fid) \<and>
     (sh \<and> \<not> (attached rs \<and> showStateMap st fid \<noteq> Some True) \<longrightarrow>
        st' = st \<and> ret = autoUpdateCleanerMap st fid)"
proof (cases rule: effect_cases [of rs sh st fid])
  case (showing r' f')
  from effect_show [OF showing(1,2,4), of props] obtain st' where
    st': "show_effect props fid rs True st = Inr (st', autoUpdateCleanerMap st' fid)"
      "showStateMap st' = (showStateMap st)(fid \<mapsto> True)"
      "if autoUpdate props \<noteq> JBool False \<and> autoUpdateCleanerMap st fid = None
          then autoUpdateCleanerMap st' =
                 (autoUpdateCleanerMap st)(fid \<mapsto> AutoUpdate r' f' (Throttle UpdateFloating 16)
                    (object_or_undefined (autoUpdate props))) \<and>
               trace st' = trace st @
                 [ShowStateSet fid True, EventFired ShowEvent (on_show (events props)),
                  CleanerSet fid (AutoUpdate r' f' (Throttle UpdateFloating 16)
                    (object_or_undefined (autoUpdate props)))]
          else autoUpdateCleanerMap st' = autoUpdateCleanerMap st \<and>
               trace st' = trace st @
                 [ShowStateSet fid True, EventFired ShowEvent (on_show (events props))]"
    by blast
  with showing show ?thesis
    by (auto simp add: attached_def split: if_splits)
next
  case (hiding c')
  from effect_hide [OF hiding(2,3), of props rs] obtain st' where
    "show_effect props fid rs False st = Inr (st', None)"
    "showStateMap st' = (showStateMap st)(fid := None)"
    "autoUpdateCleanerMap st' = (autoUpdateCleanerMap st)(fid := None)"
    "trace st' = trace st @
           [ShowStateDelete fid, Disposed c', CleanerDelete fid,
            EventFired HideEvent (on_hide (events props))]"
    by blast
  with hiding show ?thesis by auto
next
  case idle
  from effect_idle [OF idle, of props] idle show ?thesis
    by (auto simp add: attached_def)
qed

theorem show_transition_witness:
  "reference sample_refs = Some ''button'' \<and> floating sample_refs = Some ''panel'' \<and>
   showStateMap empty_registries ''float-1'' \<noteq> Some True \<and>
   (case show_effect sample_props ''float-1'' sample_refs True empty_registries of
      Inl e \<Rightarrow> False
    | Inr (st', ret) \<Rightarrow>
        showStateMap st' ''float-1'' = Some True \<and>
        autoUpdateCleanerMap st' ''float-1'' = Some sample_cleaner \<and>
        ret = Some sample_cleaner \<and>
        new_actions empty_registries st' =
          [ShowStateSet ''float-1'' True, EventFired ShowEvent (UserCallback ''onShow''),
           CleanerSet ''float-1'' sample_cleaner]) \<and>
   showStateMap shown_registries ''float-1'' = Some True \<and>
   (case show_effect sample_props ''float-1'' sample_refs True shown_registries of
      Inl e \<Rightarrow> False
    | Inr (st', ret) \<Rightarrow> st' = shown_registries) \<and>
   \<not> attached detached_refs \<and>
   (case show_effect sample_props ''float-1'' detached_refs True empty_registries of
      Inl e \<Rightarrow> False
    | Inr (st', ret) \<Rightarrow> st' = empty_registries \<and> ret = None)"
proof -
  have g: "reference sample_refs = Some ''button''" "floating sample_refs = Some ''panel''"
    "showStateMap empty_registries ''float-1'' \<noteq> Some True"
    "autoUpdateCleanerMap empty_registries ''float-1'' = None"
    "showStateMap shown_registries ''float-1'' = Some True"
    "\<not> attached detached_refs"
    by (simp_all add: sample_refs_def empty_registries_def shown_registries_def attached_def
        detached_refs_def)
  have p: "on_show (events sample_props) = UserCallback ''onShow''"
    "autoUpdate sample_props = Undefined"
    by (simp_all add: events_def sample_props_def)
  from
    show_transition [where props = sample_props and fid = "''float-1''" and rs = sample_refs
      and sh = True and st = empty_registries and cb = "UserCallback ''onShow''"
      and b = True and c = sample_cleaner and r = "''button''" and f = "''panel''"]
    show_transition [where props = sample_props and fid = "''float-1''" and rs = sample_refs
      and sh = True and st = shown_registries and cb = Noop
      and b = True and c = sample_cleaner and r = "''button''" and f = "''panel''"]
    show_transition [where props = sample_props and fid = "''float-1''" and rs = detached_refs
      and sh = True and st = empty_registries and cb = Noop
      and b = True and c = sample_cleaner and r = "''button''" and f = "''panel''"]
    g p
  show ?thesis
    by (auto simp add: sample_cleaner_def object_or_undefined_def)
qed

lemma cleanup_fields [simp]:
  "autoUpdateCleanerMap (cleanup pending st) = autoUpdateCleanerMap st"
  "showStateMap (cleanup pending st) = showStateMap st"
  by (simp_all add: cleanup_def split: option.splits)

lemma cleanup_trace_eq:
  "trace (cleanup pending st) = trace st @ (case pending of None \<Rightarrow> [] | Some d \<Rightarrow> [Disposed d])"
  by (cases pending) (simp_all add: cleanup_def)

lemma new_actions_cleanup:
  "trace st' = trace (cleanup pending st) @ acts \<Longrightarrow>
     new_actions st st' = (case pending of None \<Rightarrow> [] | Some d \<Rightarrow> [Disposed d]) @ acts"
  by (simp add: new_actions_def cleanup_trace_eq)

text \<open>
  Claim C5, as stated, has the shown entry removed before the subscription is disposed.
  The body returns the disposer, so the hook calls it before it runs the body again:
  when an instance is shown and then hidden, the disposer is called first, then the
  shown entry is removed, then the disposer is called a second time.
\<close>

theorem disposed_before_entry_removed:
  "final_trace
     (run_effects sample_props ''float-1'' [(True, sample_refs), (False, sample_refs)] None
        empty_registries) =
   [ShowStateSet ''float-1'' True, EventFired ShowEvent (UserCallback ''onShow''),
    CleanerSet ''float-1'' sample_cleaner,
    Disposed sample_cleaner,
    ShowStateDelete ''float-1'', Disposed sample_cleaner, CleanerDelete ''float-1'',
    EventFired HideEvent (UserCallback ''onHide'')]"
  by (simp add: final_trace_def sample_refs_def sample_props_def sample_cleaner_def
      empty_registries_def cleanup_def show_effect_def startAutoUpdate_def clearAutoUpdate_def
      Let_def perform_def events_def)

text \<open>
  Claim C5, amended. A re-run of the effect (the hook's call of the disposer the previous
  run returned, then the body) always returns. It removes the shown entry or the
  subscription, or calls \<open>events.hide\<close>, only when \<open>show\<close> is false, the instance is
  marked shown and a subscription is registered. In that case the order is: the hook's
  call of the returned disposer, removal of the shown entry, a second call of the
  disposer, removal of the subscription, \<open>events.hide\<close>. With \<open>show\<close> false and no
  subscription registered (or the instance not marked), both maps stay as they are and
  no callback is called; nothing at all changes when the previous run returned nothing.
\<close>

theorem hide_transition:
  "\<exists>st' ret. show_effect props fid rs sh (cleanup pending st) = Inr (st', ret) \<and>
     (ShowStateDelete fid \<in> set (new_actions st st') \<or>
      CleanerDelete fid \<in> set (new_actions st st') \<or>
      EventFired HideEvent cb \<in> set (new_actions st st') \<or>
      (showStateMap st fid = Some True \<and> showStateMap st' fid \<noteq> Some True) \<or>
      (autoUpdateCleanerMap st fid \<noteq> None \<and> autoUpdateCleanerMap st' fid = None) \<longrightarrow>
        \<not> sh \<and> showStateMap st fid = Some True \<and> autoUpdateCleanerMap st fid \<noteq> None) \<and>
     (\<not> sh \<and> showStateMap st fid = Some True \<and> autoUpdateCleanerMap st fid = Some c \<longrightarrow>
        new_actions st st' =
          (case pending of None \<Rightarrow> [] | Some d \<Rightarrow> [Disposed d]) @
          [ShowStateDelete fid, Disposed c, CleanerDelete fid,
           EventFired HideEvent (on_hide (events props))] \<and>
        showStateMap st' = (showStateMap st)(fid := None) \<and>
        autoUpdateCleanerMap st' = (autoUpdateCleanerMap st)(fid := None) \<and>
        ret = None) \<and>
     (\<not> sh \<and> \<not> (showStateMap st fid = Some True \<and> autoUpdateCleanerMap st fid \<noteq> None) \<longrightarrow>
        showStateMap st' = showStateMap st \<and>
        autoUpdateCleanerMap st' = autoUpdateCleanerMap st \<and>
        new_actions st st' = (case pending of None \<Rightarrow> [] | Some d \<Rightarrow> [Disposed d]) \<and>
        ret = autoUpdateCleanerMap st fid \<and>
        (pending = None \<longrightarrow> st' = st))"
proof (cases rule: effect_cases [of rs sh "cleanup pending st" fid])
  case (showing r' f')
  from effect_show [OF showing(1,2,4), of props] obtain st' where
    st': "show_effect props fid rs True (cleanup pending st) = Inr (st', autoUpdateCleanerMap st' fid)"
      "showStateMap st' = (showStateMap (cleanup pending st))(fid \<mapsto> True)"
      "if autoUpdate props \<noteq> JBool False \<and> autoUpdateCleanerMap (cleanup pending st) fid = None
          then autoUpdateCleanerMap st' =
                 (autoUpdateCleanerMap (cleanup pending st))(fid \<mapsto> AutoUpdate r' f' (Throttle UpdateFloating 16)
                    (object_or_undefined (autoUpdate props))) \<and>
               trace st' = trace (cleanup pending st) @
                 [ShowStateSet fid True, EventFired ShowEvent (on_show (events props)),
                  CleanerSet fid (AutoUpdate r' f' (Throttle UpdateFloating 16)
                    (object_or_undefined (autoUpdate props)))]
          else autoUpdateCleanerMap st' = autoUpdateCleanerMap (cleanup pending st) \<and>
               trace st' = trace (cleanup pending st) @
                 [ShowStateSet fid True, EventFired ShowEvent (on_show (events props))]"
    by blast
  from st'(3) obtain acts where
    acts: "trace st' = trace (cleanup pending st) @ acts"
      "set acts \<subseteq> {ShowStateSet fid True, EventFired ShowEvent (on_show (events props)),
                   CleanerSet fid (AutoUpdate r' f' (Throttle UpdateFloating 16)
                    (object_or_undefined (autoUpdate props)))}"
      "autoUpdateCleanerMap st fid \<noteq> None \<longrightarrow> autoUpdateCleanerMap st' fid \<noteq> None"
    by (auto split: if_splits)
  from new_actions_cleanup [OF acts(1)] acts(2,3) st'(1,2) showing(3)
  show ?thesis
    by (cases pending) auto
next
  case (hiding c')
  from effect_hide [OF hiding(2,3), of props rs] obtain st' where
    st': "show_effect props fid rs False (cleanup pending st) = Inr (st', None)"
    "showStateMap st' = (showStateMap (cleanup pending st))(fid := None)"
    "autoUpdateCleanerMap st' = (autoUpdateCleanerMap (cleanup pending st))(fid := None)"
    "trace st' = trace (cleanup pending st) @
           [ShowStateDelete fid, Disposed c', CleanerDelete fid,
            EventFired HideEvent (on_hide (events props))]"
    by blast
  from new_actions_cleanup [OF st'(4)] st'(1,2,3) hiding
  show ?thesis by auto
next
  case idle
  have eq: "show_effect props fid rs sh (cleanup pending st) =
      Inr (cleanup pending st, autoUpdateCleanerMap (cleanup pending st) fid)"
    by (rule effect_idle [OF idle])
  have na: "new_actions st (cleanup pending st) =
      (case pending of None \<Rightarrow> [] | Some d \<Rightarrow> [Disposed d])"
    using new_actions_cleanup [of "cleanup pending st" pending st "[]"] by simp
  have same: "pending = None \<longrightarrow> cleanup pending st = st"
    by (simp add: cleanup_def)
  from eq na same idle show ?thesis
    by (cases pending) auto
qed

theorem hide_transition_witness:
  "showStateMap shown_registries ''float-1'' = Some True \<and>
   autoUpdateCleanerMap shown_registries ''float-1'' = Some sample_cleaner \<and>
   (case show_effect sample_props ''float-1'' sample_refs False
           (cleanup (Some sample_cleaner) shown_registries) of
      Inl e \<Rightarrow> False
    | Inr (st', ret) \<Rightarrow>
        showStateMap st' ''float-1'' = None \<and>
        autoUpdateCleanerMap st' ''float-1'' = None \<and>
        ret = None \<and>
        new_actions shown_registries st' =
          [Disposed sample_cleaner,
           ShowStateDelete ''float-1'', Disposed sample_cleaner, CleanerDelete ''float-1'',
           EventFired HideEvent (UserCallback ''onHide'')]) \<and>
   autoUpdateCleanerMap empty_registries ''float-1'' = None \<and>
   (case show_effect sample_props ''float-1'' sample_refs False (cleanup None empty_registries) of
      Inl e \<Rightarrow> False
    | Inr (st', ret) \<Rightarrow> st' = empty_registries \<and> ret = None)"
proof -
  have g: "showStateMap shown_registries ''float-1'' = Some True"
    "autoUpdateCleanerMap shown_registries ''float-1'' = Some sample_cleaner"
    "autoUpdateCleanerMap empty_registries ''float-1'' = None"
    by (simp_all add: empty_registries_def shown_registries_def)
  have p: "on_hide (events sample_props) = UserCallback ''onHide''"
    by (simp add: events_def sample_props_def)
  from
    hide_transition [where props = sample_props and fid = "''float-1''" and rs = sample_refs
      and sh = False and st = shown_registries and pending = "Some sample_cleaner"
      and cb = "UserCallback ''onHide''" and c = sample_cleaner]
    hide_transition [where props = sample_props and fid = "''float-1''" and rs = sample_refs
      and sh = False and st = empty_registries and pending = None
      and cb = Noop and c = sample_cleaner]
    g p
  show ?thesis by auto
qed

section \<open>Runs of the effect over the life of an instance\<close>

lemma cleanup_trace:
  "\<exists>acts. trace (cleanup pending st) = trace st @ acts \<and> set acts \<subseteq> range Disposed"
  by (cases pending) (simp_all add: cleanup_def)

text \<open>One run of the effect when autoUpdate is false and nothing is subscribed.\<close>

lemma no_auto_step:
  assumes "autoUpdate props = JBool False" "autoUpdateCleanerMap st fid = None"
  shows "\<exists>st' acts. show_effect props fid rs sh st = Inr (st', None) \<and>
           autoUpdateCleanerMap st' fid = None \<and>
           trace st' = trace st @ acts \<and>
           set acts \<subseteq> {ShowStateSet fid True, EventFired ShowEvent (on_show (events props))} \<and>
           (showStateMap st fid = Some True \<longrightarrow> showStateMap st' fid = Some True)"
proof (cases rule: effect_cases [of rs sh st fid])
  case (showing r f)
  from effect_show [OF showing(1,2,4), of props] assms showing show ?thesis
    by auto
next
  case (hiding c)
  with assms show ?thesis by simp
next
  case idle
  from effect_idle [OF idle, of props] assms show ?thesis by simp
qed

lemma no_auto_runs:
  assumes "autoUpdate props = JBool False" "autoUpdateCleanerMap st fid = None"
  shows "\<exists>st' acts. run_effects props fid runs pending st = Inr st' \<and>
           autoUpdateCleanerMap st' fid = None \<and>
           trace st' = trace st @ acts \<and>
           set acts \<subseteq> {ShowStateSet fid True, EventFired ShowEvent (on_show (events props))}
                        \<union> range Disposed \<and>
           (showStateMap st fid = Some True \<longrightarrow> showStateMap st' fid = Some True)"
  using assms(2)
proof (induction runs arbitrary: pending st)
  case Nil
  then show ?case by simp
next
  case (Cons run runs)
  obtain sh rs where run: "run = (sh, rs)" by (cases run)
  obtain a0 where a0: "trace (cleanup pending st) = trace st @ a0" "set a0 \<subseteq> range Disposed"
    using cleanup_trace by blast
  have "autoUpdateCleanerMap (cleanup pending st) fid = None"
    using Cons.prems by simp
  from no_auto_step [OF assms(1) this, of rs sh] obtain st1 a1 where
    st1: "show_effect props fid rs sh (cleanup pending st) = Inr (st1, None)"
      "autoUpdateCleanerMap st1 fid = None"
      "trace st1 = trace (cleanup pending st) @ a1"
      "set a1 \<subseteq> {ShowStateSet fid True, EventFired ShowEvent (on_show (events props))}"
      "showStateMap (cleanup pending st) fid = Some True \<longrightarrow> showStateMap st1 fid = Some True"
    by blast
  from Cons.IH [OF st1(2), of None] obtain st2 a2 where
    st2: "run_effects props fid runs None st1 = Inr st2"
      "autoUpdateCleanerMap st2 fid = None"
      "trace st2 = trace st1 @ a2"
      "set a2 \<subseteq> {ShowStateSet fid True, EventFired ShowEvent (on_show (events props))}
                        \<union> range Disposed"
      "showStateMap st1 fid = Some True \<longrightarrow> showStateMap st2 fid = Some True"
    by blast
  have "run_effects props fid (run # runs) pending st = Inr st2"
    using run st1(1) st2(1) by simp
  moreover have "trace st2 = trace st @ (a0 @ a1 @ a2)"
    using a0(1) st1(3) st2(3) by simp
  moreover have "set (a0 @ a1 @ a2) \<subseteq>
      {ShowStateSet fid True, EventFired ShowEvent (on_show (events props))} \<union> range Disposed"
    using a0(2) st1(4) st2(4) by auto
  moreover have "showStateMap st fid = Some True \<longrightarrow> showStateMap st2 fid = Some True"
    using st1(5) st2(5) by simp
  ultimately show ?case using st2(2) by blast
qed

text \<open>
  Claim C10. Let \<open>autoUpdate\<close> be \<open>false\<close> and no subscription be registered. A show
  transition marks the instance and calls \<open>events.show\<close> and registers nothing. Whatever
  runs of the effect follow, they all return, no subscription is ever registered,
  \<open>events.hide\<close> is never called, the mark is never removed, and an instance that is
  marked stays marked.
\<close>

theorem no_auto_update:
  assumes "autoUpdate props = JBool False" "autoUpdateCleanerMap st fid = None"
  shows "(reference rs = Some r \<and> floating rs = Some f \<and> showStateMap st fid \<noteq> Some True \<longrightarrow>
            (\<exists>st'. show_effect props fid rs True st = Inr (st', None) \<and>
               showStateMap st' fid = Some True \<and>
               autoUpdateCleanerMap st' = autoUpdateCleanerMap st \<and>
               new_actions st st' =
                 [ShowStateSet fid True, EventFired ShowEvent (on_show (events props))])) \<and>
         (\<exists>st'. run_effects props fid runs pending st = Inr st' \<and>
            autoUpdateCleanerMap st' fid = None \<and>
            (\<forall>cb. EventFired HideEvent cb \<notin> set (new_actions st st')) \<and>
            ShowStateDelete fid \<notin> set (new_actions st st') \<and>
            (showStateMap st fid = Some True \<longrightarrow> showStateMap st' fid = Some True))"
proof (intro conjI impI)
  assume h: "reference rs = Some r \<and> floating rs = Some f \<and> showStateMap st fid \<noteq> Some True"
  then have "reference rs = Some r" "floating rs = Some f" "showStateMap st fid \<noteq> Some True"
    by simp_all
  from effect_show [OF this, of props] assms
  show "\<exists>st'. show_effect props fid rs True st = Inr (st', None) \<and>
               showStateMap st' fid = Some True \<and>
               autoUpdateCleanerMap st' = autoUpdateCleanerMap st \<and>
               new_actions st st' =
                 [ShowStateSet fid True, EventFired ShowEvent (on_show (events props))]"
    by auto
next
  from no_auto_runs [OF assms, of runs pending] obtain st' acts where
    r: "run_effects props fid runs pending st = Inr st'"
       "autoUpdateCleanerMap st' fid = None"
       "trace st' = trace st @ acts"
       "set acts \<subseteq> {ShowStateSet fid True, EventFired ShowEvent (on_show (events props))}
                        \<union> range Disposed"
       "showStateMap st fid = Some True \<longrightarrow> showStateMap st' fid = Some True"
    by blast
  from r(3) have "new_actions st st' = acts" by simp
  with r show "\<exists>st'. run_effects props fid runs pending st = Inr st' \<and>
            autoUpdateCleanerMap st' fid = None \<and>
            (\<forall>cb. EventFired HideEvent cb \<notin> set (new_actions st st')) \<and>
            ShowStateDelete fid \<notin> set (new_actions st st') \<and>
            (showStateMap st fid = Some True \<longrightarrow> showStateMap st' fid = Some True)"
    by auto
qed

theorem no_auto_update_witness:
  "autoUpdate no_auto_props = JBool False \<and>
   autoUpdateCleanerMap empty_registries ''float-1'' = None \<and>
   reference sample_refs = Some ''button'' \<and> floating sample_refs = Some ''panel'' \<and>
   showStateMap empty_registries ''float-1'' \<noteq> Some True \<and>
   \<not> subscribed ''float-1''
     (run_effects no_auto_props ''float-1'' [(True, sample_refs), (False, sample_refs)] None
        empty_registries) \<and>
   (case show_effect no_auto_props ''float-1'' sample_refs True empty_registries of
      Inl e \<Rightarrow> False
    | Inr (st', ret) \<Rightarrow>
        showStateMap st' ''float-1'' = Some True \<and> ret = None \<and>
        new_actions empty_registries st' =
          [ShowStateSet ''float-1'' True, EventFired ShowEvent (UserCallback ''onShow'')])"
proof -
  have h: "autoUpdate no_auto_props = JBool False"
    "autoUpdateCleanerMap empty_registries ''float-1'' = None"
    by (simp_all add: no_auto_props_def empty_registries_def)
  have g: "reference sample_refs = Some ''button''" "floating sample_refs = Some ''panel''"
    "showStateMap empty_registries ''float-1'' \<noteq> Some True"
    by (simp_all add: sample_refs_def empty_registries_def)
  have ev: "on_show (events no_auto_props) = UserCallback ''onShow''"
    by (simp add: events_def no_auto_props_def sample_props_def)
  from no_auto_update [OF h, of sample_refs "''button''" "''panel''"
      "[(True, sample_refs), (False, sample_refs)]" None] h g ev
  show ?thesis by (auto simp add: subscribed_def)
qed

lemma lifecycle_invariant:
  assumes au: "autoUpdate props \<noteq> JBool False"
  shows "Unmount \<notin> set es \<Longrightarrow>
         (b \<longleftrightarrow> prev = Some True) \<Longrightarrow>
         (autoUpdateCleanerMap st fid \<noteq> None \<longleftrightarrow> prev = Some True \<and> a) \<Longrightarrow>
         (showStateMap st fid = Some True \<longleftrightarrow> prev = Some True \<and> a) \<Longrightarrow>
         \<exists>st'. lifecycle props fid es prev pending st = Inr st' \<and>
           (autoUpdateCleanerMap st' fid \<noteq> None \<longleftrightarrow>
              shown_after b es \<and> attached_at_last_run prev a es)"
proof (induction es arbitrary: b prev a st pending)
  case Nil
  then show ?case by simp
next
  case (Cons e es)
  from Cons.prems(1) obtain sh rs where e: "e = Commit sh rs" and es: "Unmount \<notin> set es"
    by (cases e) auto
  show ?case
  proof (cases "prev = Some sh")
    case True
    then have "sh \<longleftrightarrow> prev = Some True" by auto
    from Cons.IH [OF es this Cons.prems(3,4), of pending] True e
    show ?thesis by simp
  next
    case False
    let ?st0 = "cleanup pending st"
    have inv0: "autoUpdateCleanerMap ?st0 fid \<noteq> None \<longleftrightarrow> prev = Some True \<and> a"
      "showStateMap ?st0 fid = Some True \<longleftrightarrow> prev = Some True \<and> a"
      using Cons.prems(3,4) by simp_all
    have "\<exists>st1 ret. show_effect props fid rs sh ?st0 = Inr (st1, ret) \<and>
            (autoUpdateCleanerMap st1 fid \<noteq> None \<longleftrightarrow> sh \<and> attached rs) \<and>
            (showStateMap st1 fid = Some True \<longleftrightarrow> sh \<and> attached rs)"
    proof (cases rule: effect_cases [of rs sh ?st0 fid])
      case (showing r f)
      with False inv0 have none: "autoUpdateCleanerMap ?st0 fid = None" by auto
      from effect_show [OF showing(1,2,4), of props] au none showing(1,2,3)
      show ?thesis by (auto simp add: attached_def)
    next
      case (hiding c)
      from effect_hide [OF hiding(2,3), of props rs] hiding(1)
      show ?thesis by auto
    next
      case idle
      from effect_idle [OF idle, of props] idle False inv0
      show ?thesis by (cases sh) auto
    qed
    then obtain st1 ret where
      st1: "show_effect props fid rs sh ?st0 = Inr (st1, ret)"
        "autoUpdateCleanerMap st1 fid \<noteq> None \<longleftrightarrow> Some sh = Some True \<and> attached rs"
        "showStateMap st1 fid = Some True \<longleftrightarrow> Some sh = Some True \<and> attached rs"
      by auto
    have "sh \<longleftrightarrow> Some sh = Some True" by simp
    from Cons.IH [OF es this st1(2,3), of ret] False e st1(1)
    show ?thesis by simp
  qed
qed

text \<open>
  Claim C2, as stated, fails in three ways. With \<open>autoUpdate\<close> \<open>false\<close>, an instance
  that is shown with both handles attached has no subscription. With a handle missing
  at the commit at which \<open>show\<close> became true and attached at a later commit, the
  instance is shown with both handles attached and has no subscription, because the
  body does not run again. After unmount the entry of a shown instance is still in the
  map.
\<close>

theorem subscription_mismatches:
  "shown_after False [Commit True sample_refs] \<and>
   attached_after False [Commit True sample_refs] \<and>
   \<not> subscribed ''float-1''
     (lifecycle no_auto_props ''float-1'' [Commit True sample_refs] None None empty_registries) \<and>
   shown_after False [Commit True detached_refs, Commit True sample_refs] \<and>
   attached_after False [Commit True detached_refs, Commit True sample_refs] \<and>
   \<not> subscribed ''float-1''
     (lifecycle sample_props ''float-1'' [Commit True detached_refs, Commit True sample_refs]
        None None empty_registries) \<and>
   \<not> shown_after False [Commit True sample_refs, Unmount] \<and>
   subscribed ''float-1''
     (lifecycle sample_props ''float-1'' [Commit True sample_refs, Unmount]
        None None empty_registries)"
  by (simp add: attached_def sample_refs_def detached_refs_def no_auto_props_def sample_props_def
      empty_registries_def cleanup_def show_effect_def startAutoUpdate_def Let_def
      subscribed_def perform_def)

text \<open>
  Claim C2, amended. Let the \<open>autoUpdate\<close> prop not be \<open>false\<close> and the instance start
  with no entry in either map. At every point of its life before unmount, the effect
  has always returned, and a subscription is registered for the instance if and only if
  its \<open>show\<close> state is currently true and both handles were attached at the commit at
  which the effect last ran (the mount, or the last change of \<open>show\<close>).
\<close>

theorem subscription_iff_shown_and_attached:
  assumes "autoUpdate props \<noteq> JBool False"
    and "autoUpdateCleanerMap st fid = None" and "showStateMap st fid \<noteq> Some True"
    and "Unmount \<notin> set es"
  shows "(\<exists>st'. lifecycle props fid es None None st = Inr st') \<and>
         (subscribed fid (lifecycle props fid es None None st) \<longleftrightarrow>
            shown_after False es \<and> attached_at_last_run None False es)"
proof -
  from lifecycle_invariant [OF assms(1,4), of False None st fid False None] assms(2,3)
  show ?thesis by (auto simp add: subscribed_def)
qed

theorem subscription_iff_shown_and_attached_witness:
  "autoUpdate sample_props \<noteq> JBool False \<and>
   autoUpdateCleanerMap empty_registries ''float-1'' = None \<and>
   showStateMap empty_registries ''float-1'' \<noteq> Some True \<and>
   Unmount \<notin> set [Commit False sample_refs, Commit True sample_refs, Commit True detached_refs] \<and>
   shown_after False [Commit False sample_refs, Commit True sample_refs, Commit True detached_refs] \<and>
   attached_at_last_run None False
     [Commit False sample_refs, Commit True sample_refs, Commit True detached_refs] \<and>
   subscribed ''float-1''
     (lifecycle sample_props ''float-1''
        [Commit False sample_refs, Commit True sample_refs, Commit True detached_refs]
        None None empty_registries)"
proof -
  have h: "autoUpdate sample_props \<noteq> JBool False"
    "autoUpdateCleanerMap empty_registries ''float-1'' = None"
    "showStateMap empty_registries ''float-1'' \<noteq> Some True"
    "Unmount \<notin> set [Commit False sample_refs, Commit True sample_refs, Commit True detached_refs]"
    by (simp_all add: sample_props_def empty_registries_def)
  have a: "attached sample_refs" by (simp add: attached_def sample_refs_def)
  from subscription_iff_shown_and_attached [OF h] h a show ?thesis by simp
qed

section \<open>The recomputation callback\<close>

text \<open>
  \<open>updateFloating\<close> calls the engine's \<open>update\<close> and then \<open>events.update\<close>, and touches
  neither map. What \<open>startAutoUpdate\<close> hands to the engine is
  \<open>throttle(updateFloating, 16)\<close>, as \<open>effect_show\<close> records.
\<close>

lemma updateFloating_order:
  "trace (updateFloating props st) =
     trace st @ [Updated, EventFired UpdateEvent (on_update (events props))] \<and>
   autoUpdateCleanerMap (updateFloating props st) = autoUpdateCleanerMap st \<and>
   showStateMap (updateFloating props st) = showStateMap st"
  by (simp add: updateFloating_def Let_def)

end
